theory Spec2Isabelle
  imports Complex_Main
begin

section \<open>The drone core: shared state, tasks and their properties\<close>

text \<open>
  The development follows \<^verbatim>\<open>udp_test_receiver.cpp\<close> (the final version of the drone
  core). \<^verbatim>\<open>data_collector.cpp\<close> has the same flight physics and the same command
  handler, with logging added; its monitor and its statistics record differ and are
  given separately (suffix \<open>_dc\<close>). Each task is given first as the function of one
  iteration of its loop, and the process then as the steps of its threads, which
  interleave at the boundaries of their critical sections.

  Numbers. The C++ \<^verbatim>\<open>float\<close> fields are modelled as \<^typ>\<open>real\<close>: arithmetic is exact,
  without rounding, infinities or NaN. Every value the command interface can produce
  for throttle, pitch and roll (multiples of ten between 0 and 100, and 0, 15, -15)
  is a binary32 number and the handler's sums on them are exact in binary32 as well.
  The C++ \<^verbatim>\<open>long\<close> counters are modelled as \<^typ>\<open>int\<close>; signed overflow, undefined in
  C++, is outside the model. Clock readings are integers counting nanoseconds, the
  tick of \<^verbatim>\<open>std::chrono::steady_clock\<close>.
\<close>

subsection \<open>Shared state\<close>

record DroneState =
  throttle :: real
  pitch :: real
  roll :: real
  yaw :: real
  altitude :: real
  velocity :: real
  emergency_triggered :: bool

definition initial_state :: DroneState where
  "initial_state =
     \<lparr>throttle = 0, pitch = 0, roll = 0, yaw = 0, altitude = 0, velocity = 0,
      emergency_triggered = False\<rparr>"

record SystemStats =
  flight_loops :: int
  flight_exec_avg_us :: int
  flight_preempts :: int
  flight_deadline_misses :: int
  net_packets :: int
  net_preempts :: int
  vision_fps :: int
  vision_preempts :: int
  vision_active :: bool
  emergency_status :: string

definition initial_stats :: SystemStats where
  "initial_stats =
     \<lparr>flight_loops = 0, flight_exec_avg_us = 0, flight_preempts = 0,
      flight_deadline_misses = 0, net_packets = 0, net_preempts = 0, vision_fps = 0,
      vision_preempts = 0, vision_active = False, emergency_status = ''STANDBY''\<rparr>"

subsection \<open>The flight task: the critical section on the shared state\<close>

text \<open>The constant \<^verbatim>\<open>dt = 0.01f\<close> of \<^verbatim>\<open>task_flight\<close>.\<close>

definition dt :: real where
  "dt = 0.01"

text \<open>The first statement of the critical section: the \<^verbatim>\<open>if\<close> on the emergency flag.\<close>

definition emergency_cut :: "DroneState \<Rightarrow> DroneState" where
  "emergency_cut s =
     (if emergency_triggered s then s\<lparr>throttle := 0, pitch := 0, roll := 0\<rparr> else s)"

text \<open>
  The right-hand side of \<^verbatim>\<open>float tilt_factor\<close>; \<^verbatim>\<open>abs\<close> is the absolute value on
  \<^verbatim>\<open>float\<close>.
\<close>

definition tilt_factor :: "real \<Rightarrow> real \<Rightarrow> real" where
  "tilt_factor p r = 1 - (\<bar>p\<bar> + \<bar>r\<bar>) * 0.005"

text \<open>
  The statements from \<^verbatim>\<open>float lift\<close> to the update of the altitude. They follow the
  \<^verbatim>\<open>if\<close> on the emergency flag and are not in an \<^verbatim>\<open>else\<close> branch.
\<close>

definition integrate :: "DroneState \<Rightarrow> DroneState" where
  "integrate s =
     (let lift = throttle s * 0.25;
          gravity = 9.81;
          accel = lift * tilt_factor (pitch s) (roll s) - gravity;
          s1 = s\<lparr>velocity := velocity s + accel * dt\<rparr>
      in s1\<lparr>altitude := altitude s1 + velocity s1 * dt\<rparr>)"

text \<open>The last statement: \<^verbatim>\<open>if (altitude < 0) { altitude = 0; velocity = 0; }\<close>.\<close>

definition ground_clamp :: "DroneState \<Rightarrow> DroneState" where
  "ground_clamp s = (if altitude s < 0 then s\<lparr>altitude := 0, velocity := 0\<rparr> else s)"

definition flight_critical :: "DroneState \<Rightarrow> DroneState" where
  "flight_critical s = ground_clamp (integrate (emergency_cut s))"

text \<open>
  A flight run under changing inputs: before each cycle the three control inputs are
  overwritten with arbitrary values, then the critical section runs.
\<close>

fun flight_steps :: "(real \<times> real \<times> real) list \<Rightarrow> DroneState \<Rightarrow> DroneState" where
  "flight_steps [] s = s"
| "flight_steps ((t, p, r) # ins) s =
     flight_steps ins (flight_critical (s\<lparr>throttle := t, pitch := p, roll := r\<rparr>))"

subsection \<open>The flight task: deadline and statistics\<close>

text \<open>\<^verbatim>\<open>std::chrono::milliseconds(10)\<close>, in clock ticks (nanoseconds).\<close>

definition period :: int where
  "period = 10 * 1000000"

text \<open>
  The head of the loop body: \<^verbatim>\<open>next_wake += 10ms\<close>, then the comparison of the clock
  with the new \<^verbatim>\<open>next_wake\<close>. The argument \<open>now\<close> is the clock reading of that
  comparison. (\<^verbatim>\<open>phase4.cpp\<close> does the same with its \<^verbatim>\<open>start\<close> reading.)
\<close>

definition deadline_check :: "int \<Rightarrow> int \<times> SystemStats \<Rightarrow> int \<times> SystemStats" where
  "deadline_check now = (\<lambda>(next_wake, st).
     let next_wake' = next_wake + period
     in (next_wake',
         if now > next_wake'
         then st\<lparr>flight_deadline_misses := flight_deadline_misses st + 1\<rparr>
         else st))"

text \<open>Division of C++ integers: the quotient is truncated toward zero.\<close>

definition c_div :: "int \<Rightarrow> int \<Rightarrow> int" where
  "c_div a b = sgn a * sgn b * (\<bar>a\<bar> div \<bar>b\<bar>)"

text \<open>\<^verbatim>\<open>duration_cast<microseconds>(end - start).count()\<close> on nanosecond ticks.\<close>

definition duration_us :: "int \<Rightarrow> int \<Rightarrow> int" where
  "duration_us t_start t_end = c_div (t_end - t_start) 1000"

text \<open>The block under the statistics lock at the end of the cycle.\<close>

definition flight_stats_update :: "int \<Rightarrow> int \<Rightarrow> SystemStats \<Rightarrow> SystemStats" where
  "flight_stats_update dur preempts st =
     st\<lparr>flight_loops := flight_loops st + 1,
        flight_exec_avg_us := c_div (flight_exec_avg_us st + dur) 2,
        flight_preempts := preempts\<rparr>"

text \<open>
  One iteration of the loop of \<^verbatim>\<open>task_flight\<close>. Its inputs are what the iteration
  reads from outside: the clock at the deadline comparison, the clock before and after
  the critical section, and the kernel's preemption count. The final
  \<^verbatim>\<open>sleep_until(next_wake)\<close> changes no variable.
\<close>

definition task_flight_cycle ::
  "int \<Rightarrow> int \<Rightarrow> int \<Rightarrow> int \<Rightarrow> int \<times> SystemStats \<times> DroneState \<Rightarrow> int \<times> SystemStats \<times> DroneState"
where
  "task_flight_cycle now t_start t_end preempts = (\<lambda>(next_wake, st, s).
     let (next_wake', st1) = deadline_check now (next_wake, st);
         s' = flight_critical s;
         st2 = flight_stats_update (duration_us t_start t_end) preempts st1
     in (next_wake', st2, s'))"

text \<open>Consecutive cycles of the flight task, each with the four values it reads.\<close>

fun flight_run ::
  "(int \<times> int \<times> int \<times> int) list \<Rightarrow> int \<times> SystemStats \<times> DroneState \<Rightarrow> int \<times> SystemStats \<times> DroneState"
where
  "flight_run [] x = x"
| "flight_run ((now, t_start, t_end, preempts) # cs) x =
     flight_run cs (task_flight_cycle now t_start t_end preempts x)"

text \<open>
  The count of late cycles, stated apart from the code: the number of cycles whose
  start is more than one period after the previous deadline, when the deadline before
  the first cycle is \<open>prev\<close>.
\<close>

fun delayed_cycles :: "int \<Rightarrow> int list \<Rightarrow> int" where
  "delayed_cycles prev [] = 0"
| "delayed_cycles prev (now # nows) =
     (if now - prev > period then 1 else 0) + delayed_cycles (prev + period) nows"

text \<open>
  The loop with its clock. \<open>clk\<close> is the time at which an iteration starts; the
  deadline comparison and the \<^verbatim>\<open>start\<close> reading happen at that instant, the
  iteration then takes \<open>body\<close> ticks up to the call of \<^verbatim>\<open>sleep_until\<close>, and
  \<^verbatim>\<open>sleep_until(next_wake)\<close> returns at \<^verbatim>\<open>next_wake\<close>, or at once when that instant
  has passed. An artificial delay of a cycle is a large \<open>body\<close>. The preemption
  count that a cycle reads has no part in the deadlines; the timed run passes 0.
\<close>

definition task_flight_cycle_timed ::
  "int \<Rightarrow> int \<Rightarrow> int \<times> int \<times> SystemStats \<times> DroneState \<Rightarrow> int \<times> int \<times> SystemStats \<times> DroneState"
where
  "task_flight_cycle_timed body preempts = (\<lambda>(clk, x).
     let (next_wake', st', s') = task_flight_cycle clk clk (clk + body) preempts x
     in (max (clk + body) next_wake', next_wake', st', s'))"

fun flight_run_timed ::
  "int list \<Rightarrow> int \<times> int \<times> SystemStats \<times> DroneState \<Rightarrow> int \<times> int \<times> SystemStats \<times> DroneState"
where
  "flight_run_timed [] x = x"
| "flight_run_timed (body # bodies) x = flight_run_timed bodies (task_flight_cycle_timed body 0 x)"

text \<open>
  The state in which \<^verbatim>\<open>task_flight\<close> enters its loop at time \<open>t0\<close>:
  \<^verbatim>\<open>next_wake\<close> is initialised with the clock.
\<close>

definition flight_start :: "int \<Rightarrow> int \<times> int \<times> SystemStats \<times> DroneState" where
  "flight_start t0 = (t0, t0, initial_stats, initial_state)"

definition misses_of :: "int \<times> int \<times> SystemStats \<times> DroneState \<Rightarrow> int" where
  "misses_of x = flight_deadline_misses (fst (snd (snd x)))"

subsection \<open>The command task\<close>

text \<open>
  The chain of string comparisons in \<^verbatim>\<open>task_networking\<close>, executed under the state
  lock. \<^verbatim>\<open>notify_one\<close> is listed among the effects of the iteration below.
\<close>

definition handle_command :: "string \<Rightarrow> DroneState \<times> SystemStats \<Rightarrow> DroneState \<times> SystemStats" where
  "handle_command cmd = (\<lambda>(s, st).
     if cmd = ''PANIC'' then
       (s\<lparr>emergency_triggered := True\<rparr>, st\<lparr>emergency_status := ''TRIGGERED''\<rparr>)
     else if cmd = ''UP'' then (s\<lparr>throttle := min 100 (throttle s + 10)\<rparr>, st)
     else if cmd = ''DOWN'' then (s\<lparr>throttle := max 0 (throttle s - 10)\<rparr>, st)
     else if cmd = ''FRONT'' then (s\<lparr>pitch := 15\<rparr>, st)
     else if cmd = ''BACK'' then (s\<lparr>pitch := - 15\<rparr>, st)
     else if cmd = ''LEFT'' then (s\<lparr>roll := - 15\<rparr>, st)
     else if cmd = ''RIGHT'' then (s\<lparr>roll := 15\<rparr>, st)
     else if cmd = ''STOP'' then (s\<lparr>pitch := 0, roll := 0\<rparr>, st)
     else (s, st))"

fun handle_commands :: "string list \<Rightarrow> DroneState \<times> SystemStats \<Rightarrow> DroneState \<times> SystemStats" where
  "handle_commands [] x = x"
| "handle_commands (cmd # cmds) x = handle_commands cmds (handle_command cmd x)"

text \<open>
  Locks, notifications and suspensions of a loop iteration, in program order.
  Durations are in milliseconds.
\<close>

datatype mutex = state_mutex | stats_mutex | console_mutex

datatype effect = Acquire mutex | Release mutex | Notify | SleepFor nat

text \<open>The durations of the sleeps in a trace of effects.\<close>

fun sleeps :: "effect list \<Rightarrow> nat list" where
  "sleeps [] = []"
| "sleeps (SleepFor d # es) = d # sleeps es"
| "sleeps (Acquire m # es) = sleeps es"
| "sleeps (Release m # es) = sleeps es"
| "sleeps (Notify # es) = sleeps es"

text \<open>
  \<^verbatim>\<open>string cmd(buffer)\<close> after \<^verbatim>\<open>buffer[n] = '\0'\<close>: the received bytes up to the first
  zero byte.
\<close>

definition cmd_of_buffer :: "string \<Rightarrow> string" where
  "cmd_of_buffer bytes = takeWhile (\<lambda>c. c \<noteq> CHR 0x00) bytes"

text \<open>
  One iteration of the receive loop. \<open>recv\<close> is the outcome of the non-blocking
  \<^verbatim>\<open>recvfrom\<close>: \<open>None\<close> when it returned no data (\<open>n \<le> 0\<close>), \<open>Some bytes\<close> with the
  \<open>n > 0\<close> bytes of the datagram otherwise. The message written to \<^verbatim>\<open>cerr\<close> on a
  receive error is not modelled.
\<close>

definition task_networking_iter ::
  "string option \<Rightarrow> int \<Rightarrow> DroneState \<times> SystemStats \<Rightarrow> (DroneState \<times> SystemStats) \<times> effect list"
where
  "task_networking_iter recv preempts = (\<lambda>(s, st).
     case recv of
       None \<Rightarrow> ((s, st), [SleepFor 10])
     | Some bytes \<Rightarrow>
         if bytes = [] then ((s, st), [SleepFor 10])
         else
           let cmd = cmd_of_buffer bytes;
               st1 = st\<lparr>net_packets := net_packets st + 1, net_preempts := preempts\<rparr>
           in (handle_command cmd (s, st1),
               [Acquire stats_mutex, Release stats_mutex, Acquire state_mutex]
               @ (if cmd = ''PANIC'' then [Notify, Acquire stats_mutex, Release stats_mutex] else [])
               @ [Release state_mutex, SleepFor 10]))"

subsection \<open>The monitor task\<close>

text \<open>The local variables of one monitor iteration: the row that is printed.\<close>

record monitor_row =
  f_time :: int
  f_miss :: int
  f_pre :: int
  n_pack :: int
  n_pre :: int
  v_fps :: int
  v_pre :: int
  alt :: real
  thr :: real
  emerg_status :: string

text \<open>
  The block of \<^verbatim>\<open>task_monitor\<close> under the statistics lock in
  \<^verbatim>\<open>udp_test_receiver.cpp\<close>: eight reads into the locals, then \<^verbatim>\<open>net_packets = 0\<close>.
\<close>

definition monitor_read_stats :: "SystemStats \<Rightarrow> monitor_row \<Rightarrow> monitor_row \<times> SystemStats" where
  "monitor_read_stats st row =
     (row\<lparr>f_time := flight_exec_avg_us st, f_miss := flight_deadline_misses st,
          f_pre := flight_preempts st, n_pack := net_packets st, n_pre := net_preempts st,
          v_fps := vision_fps st, v_pre := vision_preempts st,
          emerg_status := emergency_status st\<rparr>,
      st\<lparr>net_packets := 0\<rparr>)"

text \<open>The block under the state lock: two reads.\<close>

definition monitor_read_state :: "DroneState \<Rightarrow> monitor_row \<Rightarrow> monitor_row \<times> DroneState" where
  "monitor_read_state s row = (row\<lparr>alt := altitude s, thr := throttle s\<rparr>, s)"

text \<open>
  The statistics of \<^verbatim>\<open>data_collector.cpp\<close>: a frame counter \<^verbatim>\<open>vision_frames\<close> in place
  of \<^verbatim>\<open>vision_fps\<close> and \<^verbatim>\<open>vision_active\<close>.
\<close>

record SystemStats_dc =
  flight_loops_dc :: int
  flight_exec_avg_us_dc :: int
  flight_preempts_dc :: int
  flight_deadline_misses_dc :: int
  net_packets_dc :: int
  net_preempts_dc :: int
  vision_frames_dc :: int
  vision_preempts_dc :: int
  emergency_status_dc :: string

record monitor_row_dc =
  f_time_dc :: int
  f_miss_dc :: int
  f_pre_dc :: int
  n_pack_dc :: int
  n_pre_dc :: int
  v_fps_dc :: int
  v_pre_dc :: int
  emg_dc :: string

text \<open>
  The block of \<^verbatim>\<open>task_monitor\<close> under the statistics lock in \<^verbatim>\<open>data_collector.cpp\<close>:
  eight reads, then \<^verbatim>\<open>vision_frames = 0\<close> and \<^verbatim>\<open>net_packets = 0\<close>.
\<close>

definition monitor_read_stats_dc ::
  "SystemStats_dc \<Rightarrow> monitor_row_dc \<Rightarrow> monitor_row_dc \<times> SystemStats_dc"
where
  "monitor_read_stats_dc st row =
     (row\<lparr>f_time_dc := flight_exec_avg_us_dc st, f_miss_dc := flight_deadline_misses_dc st,
          f_pre_dc := flight_preempts_dc st, n_pack_dc := net_packets_dc st,
          n_pre_dc := net_preempts_dc st, v_fps_dc := vision_frames_dc st,
          v_pre_dc := vision_preempts_dc st, emg_dc := emergency_status_dc st\<rparr>,
      st\<lparr>vision_frames_dc := 0, net_packets_dc := 0\<rparr>)"

text \<open>
  A loop body as the sequence of what it does: sleeps, lock and unlock operations,
  blocks that work on the statistics, blocks that work on the drone state, and the
  output of the row. A block takes the structure and the locals and returns both.
\<close>

datatype ('row, 'st) action =
    Sleep nat
  | Lock mutex
  | Unlock mutex
  | OnStats "'st \<Rightarrow> 'row \<Rightarrow> 'row \<times> 'st"
  | OnState "DroneState \<Rightarrow> 'row \<Rightarrow> 'row \<times> DroneState"
  | Print

text \<open>
  The thread that executes the actions: its locals, the two structures, and the locks
  it holds. Two more fields record how the locks were used: \<open>guarded\<close> is true as
  long as every block on the statistics ran with the statistics lock held and every
  block on the drone state with the state lock held; \<open>both_held\<close> becomes true when
  the state lock and the statistics lock are held together.
\<close>

record ('row, 'st) thread_ctx =
  locals :: 'row
  the_state :: DroneState
  the_stats :: 'st
  held :: "mutex set"
  guarded :: bool
  both_held :: bool

fun perform :: "('row, 'st) action \<Rightarrow> ('row, 'st) thread_ctx \<Rightarrow> ('row, 'st) thread_ctx" where
  "perform (Sleep d) c = c"
| "perform (Lock m) c =
     c\<lparr>held := insert m (held c),
       both_held := both_held c
         \<or> (state_mutex \<in> insert m (held c) \<and> stats_mutex \<in> insert m (held c))\<rparr>"
| "perform (Unlock m) c = c\<lparr>held := held c - {m}\<rparr>"
| "perform (OnStats f) c =
     (let (row, st) = f (the_stats c) (locals c)
      in c\<lparr>locals := row, the_stats := st, guarded := guarded c \<and> stats_mutex \<in> held c\<rparr>)"
| "perform (OnState g) c =
     (let (row, s) = g (the_state c) (locals c)
      in c\<lparr>locals := row, the_state := s, guarded := guarded c \<and> state_mutex \<in> held c\<rparr>)"
| "perform Print c = c"

fun perform_all :: "('row, 'st) action list \<Rightarrow> ('row, 'st) thread_ctx \<Rightarrow> ('row, 'st) thread_ctx" where
  "perform_all [] c = c"
| "perform_all (a # as) c = perform_all as (perform a c)"

text \<open>A thread that holds no lock, with the given locals and structures.\<close>

definition start_ctx :: "'row \<Rightarrow> DroneState \<Rightarrow> 'st \<Rightarrow> ('row, 'st) thread_ctx" where
  "start_ctx row s st =
     \<lparr>locals = row, the_state = s, the_stats = st, held = {}, guarded = True,
      both_held = False\<rparr>"

text \<open>
  The body of the loop of \<^verbatim>\<open>task_monitor\<close> in \<^verbatim>\<open>udp_test_receiver.cpp\<close>, with its two
  \<^verbatim>\<open>lock_guard\<close> scopes one after the other, and one iteration of it. The locals are
  declared without a value; \<open>row\<close> is what they hold before the assignments.
\<close>

definition task_monitor_body :: "(monitor_row, SystemStats) action list" where
  "task_monitor_body =
     [Sleep 1000,
      Lock stats_mutex, OnStats monitor_read_stats, Unlock stats_mutex,
      Lock state_mutex, OnState monitor_read_state, Unlock state_mutex,
      Print]"

definition task_monitor_iter ::
  "monitor_row \<Rightarrow> DroneState \<Rightarrow> SystemStats \<Rightarrow> (monitor_row, SystemStats) thread_ctx"
where
  "task_monitor_iter row s st = perform_all task_monitor_body (start_ctx row s st)"

text \<open>
  The same for \<^verbatim>\<open>data_collector.cpp\<close>: the scope of the statistics lock, then the
  output under the console lock. There is no block on the drone state.
\<close>

definition task_monitor_body_dc :: "(monitor_row_dc, SystemStats_dc) action list" where
  "task_monitor_body_dc =
     [Sleep 1000,
      Lock stats_mutex, OnStats monitor_read_stats_dc, Unlock stats_mutex,
      Lock console_mutex, Print, Unlock console_mutex]"

definition task_monitor_iter_dc ::
  "monitor_row_dc \<Rightarrow> DroneState \<Rightarrow> SystemStats_dc \<Rightarrow> (monitor_row_dc, SystemStats_dc) thread_ctx"
where
  "task_monitor_iter_dc row s st = perform_all task_monitor_body_dc (start_ctx row s st)"

text \<open>Locals with no content yet, for closed examples.\<close>

definition blank_row :: monitor_row where
  "blank_row =
     \<lparr>f_time = 0, f_miss = 0, f_pre = 0, n_pack = 0, n_pre = 0, v_fps = 0, v_pre = 0,
      alt = 0, thr = 0, emerg_status = []\<rparr>"

definition blank_row_dc :: monitor_row_dc where
  "blank_row_dc =
     \<lparr>f_time_dc = 0, f_miss_dc = 0, f_pre_dc = 0, n_pack_dc = 0, n_pre_dc = 0, v_fps_dc = 0,
      v_pre_dc = 0, emg_dc = []\<rparr>"

text \<open>The initial values of the statistics in \<^verbatim>\<open>data_collector.cpp\<close>.\<close>

definition initial_stats_dc :: SystemStats_dc where
  "initial_stats_dc =
     \<lparr>flight_loops_dc = 0, flight_exec_avg_us_dc = 0, flight_preempts_dc = 0,
      flight_deadline_misses_dc = 0, net_packets_dc = 0, net_preempts_dc = 0,
      vision_frames_dc = 0, vision_preempts_dc = 0, emergency_status_dc = ''STANDBY''\<rparr>"

subsection \<open>The threads of the process\<close>

text \<open>
  The process of \<^verbatim>\<open>udp_test_receiver.cpp\<close> as its threads, which interleave at the
  boundaries of their critical sections. Each looping thread is at its loop test, in
  front of one of its blocks, or past its loop. The flight thread: the test, the
  deadline comparison, the block under the state lock, the statistics block with the
  \<^verbatim>\<open>sleep_until\<close> after it.
\<close>

datatype flight_pos = FlightAtTest | FlightAtDeadline | FlightAtLock | FlightAtStats | FlightEnded

text \<open>
  The command thread: the test, the \<^verbatim>\<open>recvfrom\<close> with the statistics block after a
  datagram, the block under the state lock for the command string received.
\<close>

datatype net_pos = NetAtTest | NetAtRecv | NetAtLock string | NetEnded

text \<open>The monitor thread: the test, the sleep and the statistics block, the state block.\<close>

datatype monitor_pos = MonitorAtTest | MonitorAtStats | MonitorAtLock | MonitorEnded

text \<open>
  \<^verbatim>\<open>task_emergency\<close>: blocked in the predicate wait; woken, in its two-second sleep;
  inside its call of \<^verbatim>\<open>cleanup_and_exit\<close>.
\<close>

datatype emergency_phase = Armed | Grace | InCleanup

text \<open>
  The process. \<open>state_locked\<close> says that \<^verbatim>\<open>task_emergency\<close> owns \<^verbatim>\<open>state_mutex\<close>: its
  \<^verbatim>\<open>unique_lock\<close> lives to the end of the function, so it owns the lock from the return
  of the wait on. All other critical sections are single steps. \<open>next_wake\<close> and
  \<open>monitor_locals\<close> are locals of the flight and the monitor thread.
  The last four fields are no variables of the program: \<open>exited\<close> records that
  \<^verbatim>\<open>std::exit\<close> has been called, \<open>emergency_wakes\<close> counts the returns of the wait
  in \<^verbatim>\<open>task_emergency\<close>, \<open>emergency_shutdowns\<close> and \<open>signal_shutdowns\<close> count the
  calls of \<^verbatim>\<open>cleanup_and_exit\<close> by \<^verbatim>\<open>task_emergency\<close> and by the signal handler.
\<close>

record System =
  shared_state :: DroneState
  global_stats :: SystemStats
  system_running :: bool
  state_locked :: bool
  next_wake :: int
  flight_at :: flight_pos
  net_at :: net_pos
  monitor_at :: monitor_pos
  monitor_locals :: monitor_row
  emergency_pc :: emergency_phase
  exited :: bool
  emergency_wakes :: nat
  emergency_shutdowns :: nat
  signal_shutdowns :: nat

definition initial_system :: "int \<Rightarrow> System" where
  "initial_system t0 =
     \<lparr>shared_state = initial_state, global_stats = initial_stats, system_running = True,
      state_locked = False, next_wake = t0, flight_at = FlightAtTest, net_at = NetAtTest,
      monitor_at = MonitorAtTest, monitor_locals = blank_row, emergency_pc = Armed,
      exited = False, emergency_wakes = 0, emergency_shutdowns = 0, signal_shutdowns = 0\<rparr>"

text \<open>
  \<^verbatim>\<open>cleanup_and_exit\<close>: the stop flag is cleared first. The \<^verbatim>\<open>lock_guard\<close> on
  \<^verbatim>\<open>state_mutex\<close> follows. When \<^verbatim>\<open>task_emergency\<close> owns the lock the caller waits there
  and never goes on, whether the caller is another thread or \<^verbatim>\<open>task_emergency\<close> itself
  (locking a \<^verbatim>\<open>std::mutex\<close> that the thread owns is undefined in C++; the model takes
  what the usual implementation does, the thread waits for itself). Otherwise the four
  outputs are zeroed, the final statistics are printed and \<^verbatim>\<open>std::exit\<close> is called.
\<close>

definition cleanup_and_exit :: "System \<Rightarrow> System" where
  "cleanup_and_exit sys =
     (let sys1 = sys\<lparr>system_running := False\<rparr>
      in if state_locked sys1 then sys1
         else sys1\<lparr>shared_state :=
                    (shared_state sys1)\<lparr>throttle := 0, pitch := 0, roll := 0, yaw := 0\<rparr>,
                  exited := True\<rparr>)"

text \<open>
  \<^verbatim>\<open>task_emergency\<close> up to its sleep: the wait returns only when the flag is true, with
  the state lock owned; the status becomes ACTIVE.
\<close>

definition task_emergency_wake :: "System \<Rightarrow> System" where
  "task_emergency_wake sys =
     (if emergency_pc sys = Armed \<and> emergency_triggered (shared_state sys)
      then sys\<lparr>state_locked := True,
               global_stats := (global_stats sys)\<lparr>emergency_status := ''ACTIVE''\<rparr>,
               emergency_pc := Grace,
               emergency_wakes := emergency_wakes sys + 1\<rparr>
      else sys)"

text \<open>\<^verbatim>\<open>task_emergency\<close> after its sleep: the call of \<^verbatim>\<open>cleanup_and_exit\<close>.\<close>

definition task_emergency_finish :: "System \<Rightarrow> System" where
  "task_emergency_finish sys =
     (if emergency_pc sys = Grace
      then cleanup_and_exit
             (sys\<lparr>emergency_pc := InCleanup, emergency_shutdowns := emergency_shutdowns sys + 1\<rparr>)
      else sys)"

text \<open>
  The handler of SIGINT and SIGTERM. It is taken to run on a thread that holds no
  lock, as the main thread, which waits in \<^verbatim>\<open>join\<close>.
\<close>

definition signal_handler :: "System \<Rightarrow> System" where
  "signal_handler sys = cleanup_and_exit (sys\<lparr>signal_shutdowns := signal_shutdowns sys + 1\<rparr>)"

text \<open>The steps of the flight thread.\<close>

definition flight_loop_test :: "System \<Rightarrow> System" where
  "flight_loop_test sys =
     (if flight_at sys = FlightAtTest
      then sys\<lparr>flight_at := (if system_running sys then FlightAtDeadline else FlightEnded)\<rparr>
      else sys)"

definition flight_deadline_part :: "int \<Rightarrow> System \<Rightarrow> System" where
  "flight_deadline_part now sys =
     (if flight_at sys = FlightAtDeadline
      then (let (nw, st) = deadline_check now (next_wake sys, global_stats sys)
            in sys\<lparr>next_wake := nw, global_stats := st, flight_at := FlightAtLock\<rparr>)
      else sys)"

definition flight_state_part :: "System \<Rightarrow> System" where
  "flight_state_part sys =
     (if flight_at sys = FlightAtLock \<and> \<not> state_locked sys
      then sys\<lparr>shared_state := flight_critical (shared_state sys), flight_at := FlightAtStats\<rparr>
      else sys)"

definition flight_stats_part :: "int \<Rightarrow> int \<Rightarrow> int \<Rightarrow> System \<Rightarrow> System" where
  "flight_stats_part t_start t_end preempts sys =
     (if flight_at sys = FlightAtStats
      then sys\<lparr>global_stats :=
                 flight_stats_update (duration_us t_start t_end) preempts (global_stats sys),
               flight_at := FlightAtTest\<rparr>
      else sys)"

text \<open>
  The steps of the command thread: the test; the receive, which goes back to the test
  (after the sleep) when there is no data and counts the packet otherwise; the block
  under the state lock, followed by the sleep.
\<close>

definition net_loop_test :: "System \<Rightarrow> System" where
  "net_loop_test sys =
     (if net_at sys = NetAtTest
      then sys\<lparr>net_at := (if system_running sys then NetAtRecv else NetEnded)\<rparr>
      else sys)"

definition net_receive :: "string option \<Rightarrow> int \<Rightarrow> System \<Rightarrow> System" where
  "net_receive recv preempts sys =
     (if net_at sys = NetAtRecv
      then (case recv of
              None \<Rightarrow> sys\<lparr>net_at := NetAtTest\<rparr>
            | Some bytes \<Rightarrow>
                if bytes = [] then sys\<lparr>net_at := NetAtTest\<rparr>
                else sys\<lparr>global_stats :=
                           (global_stats sys)\<lparr>net_packets := net_packets (global_stats sys) + 1,
                                              net_preempts := preempts\<rparr>,
                         net_at := NetAtLock (cmd_of_buffer bytes)\<rparr>)
      else sys)"

definition net_handle :: "System \<Rightarrow> System" where
  "net_handle sys =
     (case net_at sys of
        NetAtLock cmd \<Rightarrow>
          if state_locked sys then sys
          else (let (s, st) = handle_command cmd (shared_state sys, global_stats sys)
                in sys\<lparr>shared_state := s, global_stats := st, net_at := NetAtTest\<rparr>)
      | _ \<Rightarrow> sys)"

text \<open>The steps of the monitor thread.\<close>

definition monitor_loop_test :: "System \<Rightarrow> System" where
  "monitor_loop_test sys =
     (if monitor_at sys = MonitorAtTest
      then sys\<lparr>monitor_at := (if system_running sys then MonitorAtStats else MonitorEnded)\<rparr>
      else sys)"

definition monitor_stats_part :: "System \<Rightarrow> System" where
  "monitor_stats_part sys =
     (if monitor_at sys = MonitorAtStats
      then (let (row, st) = monitor_read_stats (global_stats sys) (monitor_locals sys)
            in sys\<lparr>monitor_locals := row, global_stats := st, monitor_at := MonitorAtLock\<rparr>)
      else sys)"

definition monitor_state_part :: "System \<Rightarrow> System" where
  "monitor_state_part sys =
     (if monitor_at sys = MonitorAtLock \<and> \<not> state_locked sys
      then (let (row, s) = monitor_read_state (shared_state sys) (monitor_locals sys)
            in sys\<lparr>monitor_locals := row, shared_state := s, monitor_at := MonitorAtTest\<rparr>)
      else sys)"

text \<open>
  The two writes of \<^verbatim>\<open>task_vision\<close> to the statistics: the \<^verbatim>\<open>vision_active\<close> flag, and
  the frame rate once at least a second has elapsed. The loops of the vision thread
  are not followed: its writes may come at any time, with any values of its locals.
\<close>

definition vision_set_active :: "bool \<Rightarrow> SystemStats \<Rightarrow> SystemStats" where
  "vision_set_active b st = st\<lparr>vision_active := b\<rparr>"

definition vision_sample :: "int \<Rightarrow> int \<Rightarrow> int \<Rightarrow> SystemStats \<Rightarrow> SystemStats" where
  "vision_sample frame_count elapsed preempts st =
     (if elapsed \<ge> 1
      then st\<lparr>vision_fps := c_div frame_count elapsed, vision_preempts := preempts\<rparr>
      else st)"

text \<open>
  What can happen next in the process: a step of one thread, with the values the step
  reads from outside (clock readings, the preemption count, the outcome of
  \<^verbatim>\<open>recvfrom\<close>), or a signal.
\<close>

datatype event =
    FlightTest
  | FlightDeadline int
  | FlightCritical
  | FlightStats int int int
  | NetTest
  | Net "string option" int
  | NetHandle
  | MonitorTest
  | MonitorStats
  | MonitorState
  | VisionActive bool
  | VisionSample int int int
  | EmergencyWake
  | EmergencyFinish
  | Signal

text \<open>
  One event. A step that is not the next one of its thread, or that needs the state
  lock while \<^verbatim>\<open>task_emergency\<close> owns it, does not happen. The threads that are still
  running when \<^verbatim>\<open>std::exit\<close> is called go on until the process has ended; the model
  sets no end to that.
\<close>

definition step :: "event \<Rightarrow> System \<Rightarrow> System" where
  "step e sys =
     (case e of
        FlightTest \<Rightarrow> flight_loop_test sys
      | FlightDeadline now \<Rightarrow> flight_deadline_part now sys
      | FlightCritical \<Rightarrow> flight_state_part sys
      | FlightStats t_start t_end preempts \<Rightarrow> flight_stats_part t_start t_end preempts sys
      | NetTest \<Rightarrow> net_loop_test sys
      | Net recv preempts \<Rightarrow> net_receive recv preempts sys
      | NetHandle \<Rightarrow> net_handle sys
      | MonitorTest \<Rightarrow> monitor_loop_test sys
      | MonitorStats \<Rightarrow> monitor_stats_part sys
      | MonitorState \<Rightarrow> monitor_state_part sys
      | VisionActive b \<Rightarrow> sys\<lparr>global_stats := vision_set_active b (global_stats sys)\<rparr>
      | VisionSample frame_count elapsed preempts \<Rightarrow>
          sys\<lparr>global_stats := vision_sample frame_count elapsed preempts (global_stats sys)\<rparr>
      | EmergencyWake \<Rightarrow> task_emergency_wake sys
      | EmergencyFinish \<Rightarrow> task_emergency_finish sys
      | Signal \<Rightarrow> signal_handler sys)"

fun run :: "event list \<Rightarrow> System \<Rightarrow> System" where
  "run [] sys = sys"
| "run (e # es) sys = run es (step e sys)"

text \<open>The events of one command received and executed by the command thread.\<close>

definition command_events :: "string \<Rightarrow> event list" where
  "command_events cmd = [NetTest, Net (Some cmd) 0, NetHandle]"

subsection \<open>Predicates used in the properties\<close>

text \<open>The eight strings the command handler compares with.\<close>

definition tokens :: "string list" where
  "tokens = [''PANIC'', ''UP'', ''DOWN'', ''FRONT'', ''BACK'', ''LEFT'', ''RIGHT'', ''STOP'']"

text \<open>The control inputs are in the range the command interface produces.\<close>

definition controls_ok :: "DroneState \<Rightarrow> bool" where
  "controls_ok s \<longleftrightarrow>
     0 \<le> throttle s \<and> throttle s \<le> 100 \<and> pitch s \<in> {- 15, 0, 15} \<and> roll s \<in> {- 15, 0, 15}"

text \<open>
  What holds of the emergency task in every state of the process: it owns the state
  lock exactly when it has left the wait; it has woken once if it has left the wait
  and has called \<^verbatim>\<open>cleanup_and_exit\<close> once if it is inside that call; and while the
  flag is set and the task still waits, the status is TRIGGERED.
\<close>

definition process_inv :: "System \<Rightarrow> bool" where
  "process_inv sys \<longleftrightarrow>
     (state_locked sys \<longleftrightarrow> emergency_pc sys \<noteq> Armed)
     \<and> emergency_wakes sys = (if emergency_pc sys = Armed then 0 else 1)
     \<and> emergency_shutdowns sys = (if emergency_pc sys = InCleanup then 1 else 0)
     \<and> (emergency_triggered (shared_state sys) \<and> \<not> state_locked sys \<longrightarrow>
          emergency_status (global_stats sys) = ''TRIGGERED'')"

text \<open>
  The specification's formula for the rolling average, on real numbers:
  \<open>new_avg = (old_avg + sample) / 2\<close>.
\<close>

definition spec_avg :: "real \<Rightarrow> real \<Rightarrow> real" where
  "spec_avg old_avg sample = (old_avg + sample) / 2"

text \<open>
  Two runs used as examples: a PANIC command followed by a second PANIC that has been
  received and waits in front of the state lock; and the same with the emergency task
  woken in between, then its call of \<^verbatim>\<open>cleanup_and_exit\<close> and a signal.
\<close>

definition panic_twice :: "event list" where
  "panic_twice = command_events ''PANIC'' @ [NetTest, Net (Some ''PANIC'') 1]"

definition panic_shutdown :: "event list" where
  "panic_shutdown =
     command_events ''PANIC''
     @ [EmergencyWake, NetTest, Net (Some ''PANIC'') 1, NetHandle, EmergencyFinish,
        EmergencyFinish, Signal]"

text \<open>Ten UP commands received and executed one after the other.\<close>

definition ten_ups :: "event list" where
  "ten_ups = concat (replicate 10 (command_events ''UP''))"

section \<open>Properties\<close>

subsection \<open>What each operation does to the shared state\<close>

lemma ground_clamp_altitude: "0 \<le> altitude (ground_clamp s)"
  by (simp add: ground_clamp_def)

lemma flight_critical_altitude: "0 \<le> altitude (flight_critical s)"
  by (simp add: flight_critical_def ground_clamp_altitude)

lemma flight_steps_altitude: "0 \<le> altitude s \<Longrightarrow> 0 \<le> altitude (flight_steps ins s)"
  by (induction ins s rule: flight_steps.induct) (simp_all add: flight_critical_altitude)

lemma flight_critical_controls:
  "(throttle (flight_critical s) = throttle s \<or> throttle (flight_critical s) = 0)
   \<and> (pitch (flight_critical s) = pitch s \<or> pitch (flight_critical s) = 0)
   \<and> (roll (flight_critical s) = roll s \<or> roll (flight_critical s) = 0)
   \<and> emergency_triggered (flight_critical s) = emergency_triggered s"
  by (simp add: flight_critical_def ground_clamp_def integrate_def emergency_cut_def Let_def)

lemma handle_command_throttle:
  "0 \<le> throttle s \<Longrightarrow> throttle s \<le> 100 \<Longrightarrow>
   0 \<le> throttle (fst (handle_command cmd (s, st))) \<and> throttle (fst (handle_command cmd (s, st))) \<le> 100"
  by (simp add: handle_command_def)

lemma handle_command_pitch:
  "pitch s \<in> {- 15, 0, 15} \<Longrightarrow> pitch (fst (handle_command cmd (s, st))) \<in> {- 15, 0, 15}"
  by (simp add: handle_command_def)

lemma handle_command_roll:
  "roll s \<in> {- 15, 0, 15} \<Longrightarrow> roll (fst (handle_command cmd (s, st))) \<in> {- 15, 0, 15}"
  by (simp add: handle_command_def)

lemma handle_command_flag:
  "emergency_triggered s \<Longrightarrow> emergency_triggered (fst (handle_command cmd (s, st)))"
  by (simp add: handle_command_def)

lemma handle_command_altitude:
  "altitude (fst (handle_command cmd (s, st))) = altitude s"
  by (simp add: handle_command_def)

lemma controls_ok_handle_command:
  "controls_ok s \<Longrightarrow> controls_ok (fst (handle_command cmd (s, st)))"
  unfolding controls_ok_def
  using handle_command_throttle [of s cmd st] handle_command_pitch [of s cmd st]
    handle_command_roll [of s cmd st]
  by blast

lemma controls_ok_flight_critical: "controls_ok s \<Longrightarrow> controls_ok (flight_critical s)"
  unfolding controls_ok_def
  by (simp add: flight_critical_def ground_clamp_def integrate_def emergency_cut_def Let_def)

lemma controls_ok_zeroed:
  "controls_ok (s\<lparr>throttle := 0, pitch := 0, roll := 0, yaw := 0\<rparr>)"
  by (simp add: controls_ok_def)

text \<open>
  An event leaves the shared state alone, or applies the command handler, or the
  flight task's critical section, or the zeroing of \<^verbatim>\<open>cleanup_and_exit\<close>.
\<close>

lemma shared_state_step:
  "shared_state (step e sys) = shared_state sys
   \<or> (\<exists>cmd st. shared_state (step e sys) = fst (handle_command cmd (shared_state sys, st)))
   \<or> shared_state (step e sys) = flight_critical (shared_state sys)
   \<or> shared_state (step e sys) = (shared_state sys)\<lparr>throttle := 0, pitch := 0, roll := 0, yaw := 0\<rparr>"
proof (cases e)
  case FlightTest
  then show ?thesis by (simp add: step_def flight_loop_test_def)
next
  case (FlightDeadline now)
  then show ?thesis by (simp add: step_def flight_deadline_part_def Let_def split: prod.splits)
next
  case FlightCritical
  then show ?thesis by (simp add: step_def flight_state_part_def)
next
  case (FlightStats a b p)
  then show ?thesis by (simp add: step_def flight_stats_part_def)
next
  case NetTest
  then show ?thesis by (simp add: step_def net_loop_test_def)
next
  case (Net recv p)
  then show ?thesis by (simp add: step_def net_receive_def split: option.splits)
next
  case NetHandle
  show ?thesis
  proof (cases "net_at sys")
    case (NetAtLock cmd)
    show ?thesis
    proof (cases "state_locked sys")
      case True
      with NetHandle NetAtLock show ?thesis by (simp add: step_def net_handle_def)
    next
      case False
      have "shared_state (step e sys) = fst (handle_command cmd (shared_state sys, global_stats sys))"
        using NetHandle NetAtLock False
        by (simp add: step_def net_handle_def Let_def split: prod.splits)
      then show ?thesis by blast
    qed
  qed (use NetHandle in \<open>simp_all add: step_def net_handle_def\<close>)
next
  case MonitorTest
  then show ?thesis by (simp add: step_def monitor_loop_test_def)
next
  case MonitorStats
  then show ?thesis by (simp add: step_def monitor_stats_part_def Let_def split: prod.splits)
next
  case MonitorState
  then show ?thesis
    by (simp add: step_def monitor_state_part_def monitor_read_state_def Let_def)
next
  case (VisionActive b)
  then show ?thesis by (simp add: step_def)
next
  case (VisionSample f el p)
  then show ?thesis by (simp add: step_def)
next
  case EmergencyWake
  then show ?thesis by (simp add: step_def task_emergency_wake_def)
next
  case EmergencyFinish
  then show ?thesis
    by (simp add: step_def task_emergency_finish_def cleanup_and_exit_def Let_def)
next
  case Signal
  then show ?thesis
    by (simp add: step_def signal_handler_def cleanup_and_exit_def Let_def)
qed

lemma step_preserves:
  assumes cmd: "\<And>cmd s st. P s \<Longrightarrow> P (fst (handle_command cmd (s, st)))"
    and fl: "\<And>s. P s \<Longrightarrow> P (flight_critical s)"
    and cl: "\<And>s. P s \<Longrightarrow> P (s\<lparr>throttle := 0, pitch := 0, roll := 0, yaw := 0\<rparr>)"
    and P: "P (shared_state sys)"
  shows "P (shared_state (step e sys))"
proof -
  consider (same) "shared_state (step e sys) = shared_state sys"
    | (command) cmd st where
        "shared_state (step e sys) = fst (handle_command cmd (shared_state sys, st))"
    | (flight) "shared_state (step e sys) = flight_critical (shared_state sys)"
    | (cleanup) "shared_state (step e sys) =
        (shared_state sys)\<lparr>throttle := 0, pitch := 0, roll := 0, yaw := 0\<rparr>"
    using shared_state_step [of e sys] by blast
  then show ?thesis
  proof cases
    case same
    with P show ?thesis by simp
  next
    case command
    with cmd [OF P] show ?thesis by simp
  next
    case flight
    with fl [OF P] show ?thesis by simp
  next
    case cleanup
    with cl [OF P] show ?thesis by simp
  qed
qed

lemma controls_ok_step: "controls_ok (shared_state sys) \<Longrightarrow> controls_ok (shared_state (step e sys))"
  by (rule step_preserves [where P = controls_ok])
     (simp_all add: controls_ok_handle_command controls_ok_flight_critical controls_ok_zeroed)

lemma controls_ok_run: "controls_ok (shared_state sys) \<Longrightarrow> controls_ok (shared_state (run evs sys))"
  by (induction evs arbitrary: sys) (simp_all add: controls_ok_step)

lemma controls_ok_initial: "controls_ok (shared_state (initial_system t0))"
  by (simp add: controls_ok_def initial_system_def initial_state_def)

lemma flag_step:
  "emergency_triggered (shared_state sys) \<Longrightarrow> emergency_triggered (shared_state (step e sys))"
  by (rule step_preserves [where P = emergency_triggered])
     (simp_all add: handle_command_flag flight_critical_controls)

lemma flag_run:
  "emergency_triggered (shared_state sys) \<Longrightarrow> emergency_triggered (shared_state (run evs sys))"
  by (induction evs arbitrary: sys) (simp_all add: flag_step)

lemma altitude_step:
  "0 \<le> altitude (shared_state sys) \<Longrightarrow> 0 \<le> altitude (shared_state (step e sys))"
  by (rule step_preserves [where P = "\<lambda>s. 0 \<le> altitude s"])
     (simp_all add: handle_command_altitude flight_critical_altitude)

lemma altitude_run:
  "0 \<le> altitude (shared_state sys) \<Longrightarrow> 0 \<le> altitude (shared_state (run evs sys))"
  by (induction evs arbitrary: sys) (simp_all add: altitude_step)

lemma throttle_bounds_step:
  "0 \<le> throttle (shared_state sys) \<and> throttle (shared_state sys) \<le> 100 \<Longrightarrow>
   0 \<le> throttle (shared_state (step e sys)) \<and> throttle (shared_state (step e sys)) \<le> 100"
  by (rule step_preserves [where P = "\<lambda>s. 0 \<le> throttle s \<and> throttle s \<le> 100"])
     (simp_all add: handle_command_throttle flight_critical_controls
        flight_critical_def ground_clamp_def integrate_def emergency_cut_def Let_def)

subsection \<open>Altitude\<close>

text \<open>
  Claim C1. The altitude that the integration step leaves is never negative, for any
  state it starts from, for any sequence of throttle, pitch and roll inputs and any
  number of cycles, and in any run of the whole process; and when the integrated
  altitude is below zero, so that the clamp applies, the cycle leaves altitude 0 and
  velocity 0 together.
\<close>

theorem altitude_never_negative:
  "0 \<le> altitude (flight_critical s)
   \<and> (altitude (integrate (emergency_cut s)) < 0 \<longrightarrow>
        altitude (flight_critical s) = 0 \<and> velocity (flight_critical s) = 0)
   \<and> 0 \<le> altitude (flight_steps ins initial_state)
   \<and> (ins \<noteq> [] \<longrightarrow> 0 \<le> altitude (flight_steps ins s))
   \<and> 0 \<le> altitude (shared_state (run evs (initial_system t0)))"
proof (intro conjI impI)
  show "0 \<le> altitude (flight_critical s)"
    by (rule flight_critical_altitude)
  show "altitude (flight_critical s) = 0" if "altitude (integrate (emergency_cut s)) < 0"
    using that by (simp add: flight_critical_def ground_clamp_def)
  show "velocity (flight_critical s) = 0" if "altitude (integrate (emergency_cut s)) < 0"
    using that by (simp add: flight_critical_def ground_clamp_def)
  show "0 \<le> altitude (flight_steps ins initial_state)"
    by (rule flight_steps_altitude) (simp add: initial_state_def)
  show "0 \<le> altitude (flight_steps ins s)" if "ins \<noteq> []"
  proof (cases ins)
    case Nil
    with that show ?thesis by simp
  next
    case (Cons i rest)
    obtain t p r where i: "i = (t, p, r)" by (cases i)
    show ?thesis
      unfolding Cons i by (simp add: flight_steps_altitude flight_critical_altitude)
  qed
  show "0 \<le> altitude (shared_state (run evs (initial_system t0)))"
    by (rule altitude_run) (simp add: initial_system_def initial_state_def)
qed

text \<open>
  From rest on the ground with the motors off, one cycle integrates to a negative
  altitude and the clamp resets both fields.
\<close>

theorem altitude_never_negative_witness:
  "altitude (integrate (emergency_cut initial_state)) < 0
   \<and> altitude (flight_critical initial_state) = 0
   \<and> velocity (flight_critical initial_state) = 0
   \<and> [(0, 0, 0)] \<noteq> ([] :: (real \<times> real \<times> real) list)
   \<and> 0 \<le> altitude (flight_steps [(0, 0, 0)] initial_state)"
proof -
  have neg: "altitude (integrate (emergency_cut initial_state)) < 0"
    by (simp add: integrate_def emergency_cut_def initial_state_def tilt_factor_def dt_def Let_def)
  show ?thesis
    using neg altitude_never_negative [of initial_state "[(0, 0, 0)]" "[]" 0] by simp
qed

subsection \<open>The flight cycle under emergency\<close>

text \<open>
  Claim C5, amended. When the emergency flag is set the cycle zeroes throttle, pitch
  and roll and then integrates the vertical model with the zeroed inputs: the velocity
  decreases by gravity times \<open>dt\<close>, the altitude moves by the new velocity times
  \<open>dt\<close>, and the ground clamp applies. When the flag is clear the cycle keeps the
  three inputs and integrates with them. Yaw and the flag are unchanged in both cases.
\<close>

theorem emergency_cycle:
  "(if emergency_triggered s
    then throttle (flight_critical s) = 0 \<and> pitch (flight_critical s) = 0
         \<and> roll (flight_critical s) = 0
         \<and> flight_critical s = ground_clamp (integrate (s\<lparr>throttle := 0, pitch := 0, roll := 0\<rparr>))
         \<and> (let v = velocity s - 9.81 * dt; a = altitude s + v * dt
             in velocity (flight_critical s) = (if a < 0 then 0 else v)
                \<and> altitude (flight_critical s) = (if a < 0 then 0 else a))
    else throttle (flight_critical s) = throttle s \<and> pitch (flight_critical s) = pitch s
         \<and> roll (flight_critical s) = roll s
         \<and> flight_critical s = ground_clamp (integrate s)
         \<and> (let v = velocity s + (throttle s * 0.25 * tilt_factor (pitch s) (roll s) - 9.81) * dt;
                 a = altitude s + v * dt
             in velocity (flight_critical s) = (if a < 0 then 0 else v)
                \<and> altitude (flight_critical s) = (if a < 0 then 0 else a)))
   \<and> yaw (flight_critical s) = yaw s
   \<and> emergency_triggered (flight_critical s) = emergency_triggered s"
  by (simp add: flight_critical_def ground_clamp_def integrate_def emergency_cut_def
      tilt_factor_def Let_def)

text \<open>
  Claim C5 as stated fails: at altitude 10 with the flag set, the cycle changes both the
  altitude (to 9.999019) and the velocity (to -0.0981).
\<close>

theorem emergency_cycle_counterexample:
  "emergency_triggered (initial_state\<lparr>altitude := 10, emergency_triggered := True\<rparr>)
   \<and> altitude (flight_critical (initial_state\<lparr>altitude := 10, emergency_triggered := True\<rparr>))
       \<noteq> altitude (initial_state\<lparr>altitude := 10, emergency_triggered := True\<rparr>)
   \<and> velocity (flight_critical (initial_state\<lparr>altitude := 10, emergency_triggered := True\<rparr>))
       \<noteq> velocity (initial_state\<lparr>altitude := 10, emergency_triggered := True\<rparr>)"
  by (simp add: flight_critical_def ground_clamp_def integrate_def emergency_cut_def
      initial_state_def tilt_factor_def dt_def Let_def)

subsection \<open>Bounds on the control inputs\<close>

text \<open>
  Claim C9. Every event of the process (a command, a flight cycle with its emergency
  zeroing, the shutdown sequence, and the others) keeps the throttle between 0 and 100
  when it was so before, and in every state reachable from the initial one the
  throttle is between 0 and 100.
\<close>

theorem throttle_bounded:
  "(0 \<le> throttle (shared_state sys) \<and> throttle (shared_state sys) \<le> 100 \<longrightarrow>
      0 \<le> throttle (shared_state (step e sys)) \<and> throttle (shared_state (step e sys)) \<le> 100)
   \<and> 0 \<le> throttle (shared_state (run evs (initial_system t0)))
   \<and> throttle (shared_state (run evs (initial_system t0))) \<le> 100"
proof -
  have "controls_ok (shared_state (run evs (initial_system t0)))"
    by (rule controls_ok_run) (rule controls_ok_initial)
  then show ?thesis
    using throttle_bounds_step [of sys e] by (simp add: controls_ok_def)
qed

lemma run_append: "run (es @ fs) sys = run fs (run es sys)"
  by (induction es arbitrary: sys) simp_all

lemma command_up:
  "net_at sys = NetAtTest \<Longrightarrow> system_running sys \<Longrightarrow> \<not> state_locked sys \<Longrightarrow>
   run (command_events ''UP'') sys =
     sys\<lparr>global_stats := (global_stats sys)\<lparr>net_packets := net_packets (global_stats sys) + 1,
                                            net_preempts := 0\<rparr>,
         shared_state := (shared_state sys)\<lparr>throttle := min 100 (throttle (shared_state sys) + 10)\<rparr>\<rparr>"
  by (simp add: command_events_def step_def net_loop_test_def net_receive_def net_handle_def
      cmd_of_buffer_def handle_command_def)

lemma ten_ups_state:
  "run ten_ups (initial_system 0) =
     (initial_system 0)\<lparr>global_stats := initial_stats\<lparr>net_packets := 10\<rparr>,
        shared_state := initial_state\<lparr>throttle := 100\<rparr>\<rparr>"
  by (simp add: ten_ups_def eval_nat_numeral run_append command_up initial_system_def
      initial_stats_def initial_state_def)

text \<open>
  After ten UP commands the throttle is 100; when an eleventh UP has been received,
  the throttle is still 100 in front of the state lock, so within the bounds, and the
  block under the lock keeps it within the bounds. DOWN in the initial state keeps it
  non-negative.
\<close>

theorem throttle_bounded_witness:
  "throttle (shared_state (run ten_ups (initial_system 0))) = 100
   \<and> net_at (run (ten_ups @ [NetTest, Net (Some ''UP'') 0]) (initial_system 0)) = NetAtLock ''UP''
   \<and> throttle (shared_state (run (ten_ups @ [NetTest, Net (Some ''UP'') 0]) (initial_system 0))) = 100
   \<and> 0 \<le> throttle (shared_state (step NetHandle
         (run (ten_ups @ [NetTest, Net (Some ''UP'') 0]) (initial_system 0))))
   \<and> throttle (shared_state (step NetHandle
         (run (ten_ups @ [NetTest, Net (Some ''UP'') 0]) (initial_system 0)))) \<le> 100
   \<and> 0 \<le> throttle (shared_state (run (command_events ''DOWN'') (initial_system 0)))"
proof -
  have a: "throttle (shared_state (run ten_ups (initial_system 0))) = 100"
    unfolding ten_ups_state by (simp add: initial_system_def)
  have b: "net_at (run (ten_ups @ [NetTest, Net (Some ''UP'') 0]) (initial_system 0)) = NetAtLock ''UP''"
    and c: "throttle (shared_state (run (ten_ups @ [NetTest, Net (Some ''UP'') 0]) (initial_system 0))) = 100"
    unfolding run_append ten_ups_state
    by (simp_all add: step_def net_loop_test_def net_receive_def cmd_of_buffer_def initial_system_def)
  show ?thesis
    using a b c
      throttle_bounded [of "run (ten_ups @ [NetTest, Net (Some ''UP'') 0]) (initial_system 0)"
        NetHandle "command_events ''DOWN''" 0]
    by simp
qed

text \<open>
  Claim C10. In every state reachable from the initial one, pitch and roll are each
  -15, 0 or 15, and the tilt factor computed from them lies between 0.85 and 1. The
  formula itself has no clamp: at pitch and roll 150 it is negative.
\<close>

theorem tilt_factor_bounded:
  "pitch (shared_state (run evs (initial_system t0))) \<in> {- 15, 0, 15}
   \<and> roll (shared_state (run evs (initial_system t0))) \<in> {- 15, 0, 15}
   \<and> 0.85 \<le> tilt_factor (pitch (shared_state (run evs (initial_system t0))))
                  (roll (shared_state (run evs (initial_system t0))))
   \<and> tilt_factor (pitch (shared_state (run evs (initial_system t0))))
                  (roll (shared_state (run evs (initial_system t0)))) \<le> 1
   \<and> tilt_factor 150 150 < 0"
proof -
  have ok: "controls_ok (shared_state (run evs (initial_system t0)))"
    by (rule controls_ok_run) (rule controls_ok_initial)
  then have p: "pitch (shared_state (run evs (initial_system t0))) \<in> {- 15, 0, 15}"
    and r: "roll (shared_state (run evs (initial_system t0))) \<in> {- 15, 0, 15}"
    by (simp_all add: controls_ok_def)
  have "tilt_factor (pitch (shared_state (run evs (initial_system t0))))
          (roll (shared_state (run evs (initial_system t0)))) \<in> {1, 0.925, 0.85}"
    using p r by (auto simp: tilt_factor_def)
  then have "0.85 \<le> tilt_factor (pitch (shared_state (run evs (initial_system t0))))
                  (roll (shared_state (run evs (initial_system t0))))
    \<and> tilt_factor (pitch (shared_state (run evs (initial_system t0))))
                  (roll (shared_state (run evs (initial_system t0)))) \<le> 1"
    by auto
  moreover have "tilt_factor 150 150 < 0"
    by (simp add: tilt_factor_def)
  ultimately show ?thesis using p r by blast
qed

subsection \<open>The emergency flag and the shutdown\<close>

lemma handle_command_status:
  "handle_command cmd (s, st) = (s', st') \<Longrightarrow>
   (emergency_triggered s' \<and> \<not> emergency_triggered s \<longrightarrow> emergency_status st' = ''TRIGGERED'')
   \<and> (emergency_triggered s \<longrightarrow> emergency_triggered s')
   \<and> (emergency_status st' = emergency_status st \<or> emergency_status st' = ''TRIGGERED'')"
  by (auto simp: handle_command_def split: if_splits)

lemma process_inv_initial: "process_inv (initial_system t0)"
  by (simp add: process_inv_def initial_system_def initial_state_def)

lemma process_inv_step:
  assumes inv: "process_inv sys"
  shows "process_inv (step e sys)"
proof (cases e)
  case FlightTest
  with inv show ?thesis by (simp add: process_inv_def step_def flight_loop_test_def)
next
  case (FlightDeadline now)
  with inv show ?thesis
    by (simp add: process_inv_def step_def flight_deadline_part_def deadline_check_def Let_def)
next
  case FlightCritical
  with inv show ?thesis
    using flight_critical_controls [of "shared_state sys"]
    by (simp add: process_inv_def step_def flight_state_part_def)
next
  case (FlightStats a b p)
  with inv show ?thesis
    by (simp add: process_inv_def step_def flight_stats_part_def flight_stats_update_def)
next
  case NetTest
  with inv show ?thesis by (simp add: process_inv_def step_def net_loop_test_def)
next
  case (Net recv p)
  with inv show ?thesis
    by (simp add: process_inv_def step_def net_receive_def split: option.splits)
next
  case NetHandle
  show ?thesis
  proof (cases "net_at sys")
    case (NetAtLock cmd)
    show ?thesis
    proof (cases "state_locked sys")
      case True
      with NetHandle NetAtLock inv show ?thesis by (simp add: step_def net_handle_def)
    next
      case False
      obtain s' st' where h: "handle_command cmd (shared_state sys, global_stats sys) = (s', st')"
        by (cases "handle_command cmd (shared_state sys, global_stats sys)")
      have st: "step e sys = sys\<lparr>shared_state := s', global_stats := st', net_at := NetAtTest\<rparr>"
        using NetHandle NetAtLock False h by (simp add: step_def net_handle_def)
      show ?thesis
        using inv False handle_command_status [OF h] unfolding st process_inv_def
        by auto
    qed
  qed (use NetHandle inv in \<open>simp_all add: step_def net_handle_def\<close>)
next
  case MonitorTest
  with inv show ?thesis by (simp add: process_inv_def step_def monitor_loop_test_def)
next
  case MonitorStats
  with inv show ?thesis
    by (simp add: process_inv_def step_def monitor_stats_part_def monitor_read_stats_def)
next
  case MonitorState
  with inv show ?thesis
    by (simp add: process_inv_def step_def monitor_state_part_def monitor_read_state_def)
next
  case (VisionActive b)
  with inv show ?thesis by (simp add: process_inv_def step_def vision_set_active_def)
next
  case (VisionSample f el p)
  with inv show ?thesis by (simp add: process_inv_def step_def vision_sample_def)
next
  case EmergencyWake
  with inv show ?thesis by (simp add: process_inv_def step_def task_emergency_wake_def)
next
  case EmergencyFinish
  with inv show ?thesis
    by (simp add: process_inv_def step_def task_emergency_finish_def cleanup_and_exit_def Let_def)
next
  case Signal
  with inv show ?thesis
    by (simp add: process_inv_def step_def signal_handler_def cleanup_and_exit_def Let_def)
qed

lemma process_inv_run: "process_inv sys \<Longrightarrow> process_inv (run evs sys)"
  by (induction evs arbitrary: sys) (simp_all add: process_inv_step)

lemma process_inv_reachable: "process_inv (run evs (initial_system t0))"
  by (rule process_inv_run) (rule process_inv_initial)

lemma panic_again:
  assumes flag: "emergency_triggered s" and st: "emergency_status st = ''TRIGGERED''"
  shows "handle_command ''PANIC'' (s, st) = (s, st)"
  using flag st by (simp add: handle_command_def)

lemma second_panic:
  assumes inv: "process_inv sys"
    and flag: "emergency_triggered (shared_state sys)"
    and at: "net_at sys = NetAtLock ''PANIC''"
  shows "step NetHandle sys = (if state_locked sys then sys else sys\<lparr>net_at := NetAtTest\<rparr>)"
proof (cases "state_locked sys")
  case True
  with at show ?thesis by (simp add: step_def net_handle_def)
next
  case False
  with inv flag have "emergency_status (global_stats sys) = ''TRIGGERED''"
    by (simp add: process_inv_def)
  with flag have "handle_command ''PANIC'' (shared_state sys, global_stats sys)
      = (shared_state sys, global_stats sys)"
    by (rule panic_again)
  with at False show ?thesis by (simp add: step_def net_handle_def)
qed

text \<open>
  Claim C4. Once the emergency flag is true, no step of any thread and no signal makes
  it false, over one event and over any sequence of events. The PANIC branch of the
  command handler sets the flag, and executing it twice in sequence is the same as
  executing it once. In every state the process can reach with the flag already set,
  a further PANIC that has been received changes nothing when its turn under the state
  lock comes, the position of the command thread apart: it waits if the emergency task
  owns the lock, and otherwise goes back to its loop test with the drone state, the
  statistics and the emergency task as they were. In every run the emergency task
  leaves its wait at most once and calls \<^verbatim>\<open>cleanup_and_exit\<close>, its shutdown sequence,
  at most once, however often the emergency is raised.
\<close>

theorem emergency_flag_monotonic:
  "(emergency_triggered (shared_state sys) \<longrightarrow>
      emergency_triggered (shared_state (step e sys))
      \<and> emergency_triggered (shared_state (run evs sys)))
   \<and> emergency_triggered (fst (handle_command ''PANIC'' x))
   \<and> handle_command ''PANIC'' (handle_command ''PANIC'' x) = handle_command ''PANIC'' x
   \<and> (emergency_triggered (shared_state (run evs' (initial_system t0)))
        \<and> net_at (run evs' (initial_system t0)) = NetAtLock ''PANIC'' \<longrightarrow>
      step NetHandle (run evs' (initial_system t0)) =
        (if state_locked (run evs' (initial_system t0)) then run evs' (initial_system t0)
         else (run evs' (initial_system t0))\<lparr>net_at := NetAtTest\<rparr>))
   \<and> emergency_wakes (run evs' (initial_system t0)) \<le> 1
   \<and> emergency_shutdowns (run evs' (initial_system t0)) \<le> 1"
proof (intro conjI impI)
  assume "emergency_triggered (shared_state sys)"
  then show "emergency_triggered (shared_state (step e sys))"
    and "emergency_triggered (shared_state (run evs sys))"
    by (rule flag_step, rule flag_run)
next
  show "emergency_triggered (fst (handle_command ''PANIC'' x))"
    by (cases x) (simp add: handle_command_def)
  show "handle_command ''PANIC'' (handle_command ''PANIC'' x) = handle_command ''PANIC'' x"
    by (cases x) (simp add: handle_command_def)
  have inv: "process_inv (run evs' (initial_system t0))"
    by (rule process_inv_reachable)
  then show "emergency_wakes (run evs' (initial_system t0)) \<le> 1"
    and "emergency_shutdowns (run evs' (initial_system t0)) \<le> 1"
    by (simp_all add: process_inv_def)
  assume "emergency_triggered (shared_state (run evs' (initial_system t0)))
        \<and> net_at (run evs' (initial_system t0)) = NetAtLock ''PANIC''"
  with inv show "step NetHandle (run evs' (initial_system t0)) =
        (if state_locked (run evs' (initial_system t0)) then run evs' (initial_system t0)
         else (run evs' (initial_system t0))\<lparr>net_at := NetAtTest\<rparr>)"
    by (simp add: second_panic)
qed

lemmas step_defs = step_def flight_loop_test_def flight_deadline_part_def flight_state_part_def
  flight_stats_part_def net_loop_test_def net_receive_def net_handle_def monitor_loop_test_def
  monitor_stats_part_def monitor_state_part_def task_emergency_wake_def task_emergency_finish_def
  signal_handler_def cleanup_and_exit_def

lemma panic_twice_state:
  "run panic_twice (initial_system 0) =
     (initial_system 0)\<lparr>shared_state := initial_state\<lparr>emergency_triggered := True\<rparr>,
        global_stats := initial_stats\<lparr>net_packets := 2, net_preempts := 1,
          emergency_status := ''TRIGGERED''\<rparr>,
        net_at := NetAtLock ''PANIC''\<rparr>"
  by (simp add: panic_twice_def command_events_def step_defs initial_system_def initial_stats_def
      initial_state_def handle_command_def cmd_of_buffer_def Let_def)

lemma panic_shutdown_state:
  "run panic_shutdown (initial_system 0) =
     (initial_system 0)\<lparr>shared_state := initial_state\<lparr>emergency_triggered := True\<rparr>,
        global_stats := initial_stats\<lparr>net_packets := 2, net_preempts := 1,
          emergency_status := ''ACTIVE''\<rparr>,
        system_running := False, state_locked := True,
        net_at := NetAtLock ''PANIC'', emergency_pc := InCleanup,
        emergency_wakes := 1, emergency_shutdowns := 1, signal_shutdowns := 1\<rparr>"
  by (simp add: panic_shutdown_def command_events_def step_defs initial_system_def initial_stats_def
      initial_state_def handle_command_def cmd_of_buffer_def Let_def)

text \<open>
  Two runs. In the first a second PANIC stands in front of the free state lock with
  the flag set: its step changes the position of the command thread only, and the flag
  stays set over the wake of the emergency task, a flight cycle that stops at the
  lock, and a signal. In the second the emergency task has woken between the two
  PANICs and has called \<^verbatim>\<open>cleanup_and_exit\<close>: the second PANIC waits at the lock, the
  task has woken once and called the shutdown once, a repeated finish event adds
  nothing, and the signal handler has made one call of its own. The call of the
  emergency task has not reached \<^verbatim>\<open>std::exit\<close>.
\<close>

theorem emergency_flag_monotonic_witness:
  "emergency_triggered (shared_state (run panic_twice (initial_system 0)))
   \<and> net_at (run panic_twice (initial_system 0)) = NetAtLock ''PANIC''
   \<and> \<not> state_locked (run panic_twice (initial_system 0))
   \<and> step NetHandle (run panic_twice (initial_system 0)) =
       (run panic_twice (initial_system 0))\<lparr>net_at := NetAtTest\<rparr>
   \<and> emergency_triggered (shared_state (run [EmergencyWake, FlightTest, FlightDeadline 0,
         FlightCritical, Signal] (run panic_twice (initial_system 0))))
   \<and> emergency_triggered (shared_state (run panic_shutdown (initial_system 0)))
   \<and> net_at (run panic_shutdown (initial_system 0)) = NetAtLock ''PANIC''
   \<and> state_locked (run panic_shutdown (initial_system 0))
   \<and> step NetHandle (run panic_shutdown (initial_system 0)) = run panic_shutdown (initial_system 0)
   \<and> emergency_wakes (run panic_shutdown (initial_system 0)) = 1
   \<and> emergency_shutdowns (run panic_shutdown (initial_system 0)) = 1
   \<and> signal_shutdowns (run panic_shutdown (initial_system 0)) = 1
   \<and> \<not> exited (run panic_shutdown (initial_system 0))"
proof -
  have a: "emergency_triggered (shared_state (run panic_twice (initial_system 0)))"
    and b: "net_at (run panic_twice (initial_system 0)) = NetAtLock ''PANIC''"
    and c: "\<not> state_locked (run panic_twice (initial_system 0))"
    unfolding panic_twice_state by (simp_all add: initial_system_def initial_state_def)
  have d: "emergency_triggered (shared_state (run panic_shutdown (initial_system 0)))"
    and e: "net_at (run panic_shutdown (initial_system 0)) = NetAtLock ''PANIC''"
    and f: "state_locked (run panic_shutdown (initial_system 0))"
    and g: "emergency_wakes (run panic_shutdown (initial_system 0)) = 1"
      "emergency_shutdowns (run panic_shutdown (initial_system 0)) = 1"
      "signal_shutdowns (run panic_shutdown (initial_system 0)) = 1"
      "\<not> exited (run panic_shutdown (initial_system 0))"
    unfolding panic_shutdown_state by (simp_all add: initial_system_def initial_state_def)
  show ?thesis
    using a b c d e f g
      emergency_flag_monotonic [of "run panic_twice (initial_system 0)" NetHandle
        "[EmergencyWake, FlightTest, FlightDeadline 0, FlightCritical, Signal]"
        "(initial_state, initial_stats)" panic_twice 0]
      emergency_flag_monotonic [of "run panic_twice (initial_system 0)" NetHandle
        "[]" "(initial_state, initial_stats)" panic_shutdown 0]
    by simp
qed

subsection \<open>Deadlines\<close>

lemma task_flight_cycle_deadline:
  "fst (task_flight_cycle now a b p (nw, st, s)) = nw + period"
  by (simp add: task_flight_cycle_def deadline_check_def Let_def)

lemma task_flight_cycle_misses:
  "flight_deadline_misses (fst (snd (task_flight_cycle now a b p (nw, st, s)))) =
     flight_deadline_misses st + (if now > nw + period then 1 else 0)"
  by (simp add: task_flight_cycle_def deadline_check_def flight_stats_update_def Let_def)

lemma flight_run_deadline:
  "fst (flight_run cs (nw, st, s)) = nw + period * int (length cs)
   \<and> flight_deadline_misses (fst (snd (flight_run cs (nw, st, s)))) =
       flight_deadline_misses st + delayed_cycles nw (map fst cs)"
proof (induction cs arbitrary: nw st s)
  case Nil
  show ?case by simp
next
  case (Cons c cs)
  obtain now a b p where c: "c = (now, a, b, p)" by (cases c)
  obtain nw' st' s' where cyc: "task_flight_cycle now a b p (nw, st, s) = (nw', st', s')"
    by (cases "task_flight_cycle now a b p (nw, st, s)")
  have nw': "nw' = nw + period"
    using task_flight_cycle_deadline [of now a b p nw st s] cyc by simp
  have m: "flight_deadline_misses st' =
      flight_deadline_misses st + (if now > nw + period then 1 else 0)"
    using task_flight_cycle_misses [of now a b p nw st s] cyc by simp
  show ?case
    using Cons.IH [of nw' st' s'] nw' m
    by (simp add: c cyc algebra_simps)
qed

text \<open>
  Claim C2, amended. In every flight cycle the new deadline is the previous deadline
  plus the period, and the period is 10 ms. The miss counter goes up by one exactly
  when the clock at the start of the cycle exceeds the new deadline, and is unchanged
  otherwise. Over a run of cycles the deadline has advanced by one period per cycle,
  and the counter has gone up by exactly the number of cycles whose start is more than
  one period after the previous deadline, one for each such cycle.
\<close>

theorem deadline_accounting:
  "fst (task_flight_cycle now a b p (nw, st, s)) = nw + period
   \<and> period = 10 * 1000000
   \<and> flight_deadline_misses (fst (snd (task_flight_cycle now a b p (nw, st, s)))) =
       (if now > nw + period then flight_deadline_misses st + 1 else flight_deadline_misses st)
   \<and> fst (flight_run cs (nw, st, s)) = nw + period * int (length cs)
   \<and> flight_deadline_misses (fst (snd (flight_run cs (nw, st, s)))) =
       flight_deadline_misses st + delayed_cycles nw (map fst cs)"
  using task_flight_cycle_deadline [of now a b p nw st s]
    task_flight_cycle_misses [of now a b p nw st s] flight_run_deadline [of cs nw st s]
  by (simp add: period_def)

text \<open>
  Claim C2 as stated fails: one miss per cycle that is artificially delayed by more
  than one period. In a run started at time 0 whose first cycle is held for 15 ms the
  second cycle starts at 15 ms, before its deadline of 20 ms, and no miss is ever
  recorded; when the first cycle is held for 35 ms the second and the third cycle both
  start after their deadlines of 20 ms and 30 ms, and two misses are recorded.
\<close>

theorem deadline_accounting_counterexample:
  "15000000 > period
   \<and> misses_of (flight_run_timed [15000000, 0, 0, 0] (flight_start 0)) = 0
   \<and> 35000000 > period
   \<and> misses_of (flight_run_timed [35000000, 0, 0, 0] (flight_start 0)) = 2"
  by (simp add: misses_of_def flight_start_def task_flight_cycle_timed_def task_flight_cycle_def
      deadline_check_def flight_stats_update_def period_def initial_stats_def Let_def)

subsection \<open>The rolling average\<close>

lemma c_div_2: "c_div x 2 = (if 0 \<le> x then x div 2 else - ((- x) div 2))"
  by (cases "x = 0") (simp_all add: c_div_def)

lemma c_div_2_floor: "0 \<le> x \<Longrightarrow> c_div x 2 = \<lfloor>real_of_int x / 2\<rfloor>"
  unfolding c_div_2 by (simp add: floor_divide_of_int_eq [where ?'a = real, symmetric])

lemma c_div_2_ceiling: "x < 0 \<Longrightarrow> c_div x 2 = \<lceil>real_of_int x / 2\<rceil>"
proof -
  assume neg: "x < 0"
  have "\<lceil>real_of_int x / 2\<rceil> = - \<lfloor>- (real_of_int x / 2)\<rfloor>"
    by (simp add: ceiling_def)
  also have "- (real_of_int x / 2) = real_of_int (- x) / 2"
    by simp
  also have "\<lfloor>real_of_int (- x) / 2\<rfloor> = (- x) div 2"
    by (simp add: floor_divide_of_int_eq [where ?'a = real, symmetric])
  finally show ?thesis using neg by (simp add: c_div_2)
qed

text \<open>
  Claim C7, amended. For every old average and every duration sample, the average
  recorded by the flight task is the specification's value (old average + sample) / 2
  rounded toward zero to an integer: its floor when it is not negative, its ceiling
  when it is. The recorded average equals the specification's value exactly when the
  sum of old average and sample is even, and differs from it by at most one half. In
  the cycle the sample is the measured duration in microseconds.
\<close>

theorem rolling_average:
  "real_of_int (flight_exec_avg_us (flight_stats_update dur p st)) =
     (if 0 \<le> spec_avg (real_of_int (flight_exec_avg_us st)) (real_of_int dur)
      then real_of_int \<lfloor>spec_avg (real_of_int (flight_exec_avg_us st)) (real_of_int dur)\<rfloor>
      else real_of_int \<lceil>spec_avg (real_of_int (flight_exec_avg_us st)) (real_of_int dur)\<rceil>)
   \<and> (real_of_int (flight_exec_avg_us (flight_stats_update dur p st)) =
        spec_avg (real_of_int (flight_exec_avg_us st)) (real_of_int dur)
      \<longleftrightarrow> even (flight_exec_avg_us st + dur))
   \<and> \<bar>real_of_int (flight_exec_avg_us (flight_stats_update dur p st))
        - spec_avg (real_of_int (flight_exec_avg_us st)) (real_of_int dur)\<bar> \<le> 1 / 2
   \<and> flight_exec_avg_us (fst (snd (task_flight_cycle now t_start t_end p (nw, st, s)))) =
       flight_exec_avg_us (flight_stats_update (duration_us t_start t_end) p st)"
proof (intro conjI)
  let ?x = "flight_exec_avg_us st + dur"
  have eq: "flight_exec_avg_us (flight_stats_update dur p st) = c_div ?x 2"
    by (simp add: flight_stats_update_def)
  have sp: "spec_avg (real_of_int (flight_exec_avg_us st)) (real_of_int dur) = real_of_int ?x / 2"
    by (simp add: spec_avg_def)
  show "real_of_int (flight_exec_avg_us (flight_stats_update dur p st)) =
     (if 0 \<le> spec_avg (real_of_int (flight_exec_avg_us st)) (real_of_int dur)
      then real_of_int \<lfloor>spec_avg (real_of_int (flight_exec_avg_us st)) (real_of_int dur)\<rfloor>
      else real_of_int \<lceil>spec_avg (real_of_int (flight_exec_avg_us st)) (real_of_int dur)\<rceil>)"
  proof (cases "0 \<le> ?x")
    case True
    then have "0 \<le> real_of_int ?x / 2" by simp
    with True show ?thesis unfolding eq sp by (simp only: c_div_2_floor if_True)
  next
    case False
    then have "\<not> 0 \<le> real_of_int ?x / 2" by simp
    moreover from False have "?x < 0" by simp
    ultimately show ?thesis unfolding eq sp by (simp only: c_div_2_ceiling if_False)
  qed
  have two: "2 * c_div ?x 2 = ?x \<longleftrightarrow> even ?x"
    unfolding c_div_2 by presburger
  have "real_of_int (c_div ?x 2) = real_of_int ?x / 2 \<longleftrightarrow> 2 * c_div ?x 2 = ?x"
  proof
    assume "real_of_int (c_div ?x 2) = real_of_int ?x / 2"
    then have "real_of_int (2 * c_div ?x 2) = real_of_int ?x" by simp
    then show "2 * c_div ?x 2 = ?x" by (simp only: of_int_eq_iff)
  next
    assume "2 * c_div ?x 2 = ?x"
    then have "real_of_int (2 * c_div ?x 2) = real_of_int ?x" by simp
    then show "real_of_int (c_div ?x 2) = real_of_int ?x / 2" by simp
  qed
  with two show "real_of_int (flight_exec_avg_us (flight_stats_update dur p st)) =
        spec_avg (real_of_int (flight_exec_avg_us st)) (real_of_int dur)
      \<longleftrightarrow> even (flight_exec_avg_us st + dur)"
    unfolding eq sp by simp
  have "\<bar>2 * c_div ?x 2 - ?x\<bar> \<le> 1"
    unfolding c_div_2 by presburger
  then have "\<bar>real_of_int (2 * c_div ?x 2 - ?x)\<bar> \<le> 1"
    by linarith
  then have "\<bar>2 * real_of_int (c_div ?x 2) - real_of_int ?x\<bar> \<le> 1"
    by simp
  then have "\<bar>real_of_int (c_div ?x 2) - real_of_int ?x / 2\<bar> \<le> 1 / 2"
    by argo
  then show "\<bar>real_of_int (flight_exec_avg_us (flight_stats_update dur p st))
        - spec_avg (real_of_int (flight_exec_avg_us st)) (real_of_int dur)\<bar> \<le> 1 / 2"
    unfolding eq sp .
  show "flight_exec_avg_us (fst (snd (task_flight_cycle now t_start t_end p (nw, st, s)))) =
       flight_exec_avg_us (flight_stats_update (duration_us t_start t_end) p st)"
    by (simp add: task_flight_cycle_def deadline_check_def flight_stats_update_def Let_def)
qed

text \<open>
  Claim C7 as stated fails: with the old average 0 and a sample of 1 microsecond the
  flight task records 0, and the specification's value is one half.
\<close>

theorem rolling_average_counterexample:
  "real_of_int (flight_exec_avg_us (flight_stats_update 1 0 initial_stats))
     \<noteq> spec_avg (real_of_int (flight_exec_avg_us initial_stats)) 1"
  by (simp add: flight_stats_update_def initial_stats_def spec_avg_def c_div_def)

subsection \<open>Commands\<close>

lemma ups_throttle:
  "throttle s = min 100 (10 * real k) \<Longrightarrow>
   throttle (fst (handle_commands (replicate n ''UP'') (s, st))) = min 100 (10 * real (k + n))"
proof (induction n arbitrary: s k)
  case 0
  then show ?case by simp
next
  case (Suc n)
  have "throttle (fst (handle_command ''UP'' (s, st))) = min 100 (10 * real (Suc k))"
    using Suc.prems by (simp add: handle_command_def min_def)
  moreover have "snd (handle_command ''UP'' (s, st)) = st"
    by (simp add: handle_command_def)
  ultimately have "throttle (fst (handle_commands (replicate n ''UP'') (handle_command ''UP'' (s, st))))
      = min 100 (10 * real (Suc k + n))"
    using Suc.IH [of "fst (handle_command ''UP'' (s, st))" "Suc k"]
    by (metis prod.collapse)
  then show ?case by simp
qed

text \<open>
  Claim C3, amended. The handler acts on the eight tokens, compared exactly: PANIC sets
  the emergency flag (and the status TRIGGERED); UP and DOWN change the throttle by +10
  and -10, clamped to the range from 0 to 100; FRONT and BACK set the pitch to 15 and
  -15; LEFT and RIGHT set the roll to -15 and 15; STOP zeroes pitch and roll. Any other
  string, a prefix, an extension or another case of a token included, changes nothing.
  From throttle 0, UP twice gives 20, nine UPs give 90, ten UPs give exactly 100, any
  number \<open>n\<close> of UPs gives the smaller of 100 and \<open>10 n\<close>, and DOWN gives 0.
\<close>

theorem command_mapping:
  "handle_command ''PANIC'' (s, st) =
     (s\<lparr>emergency_triggered := True\<rparr>, st\<lparr>emergency_status := ''TRIGGERED''\<rparr>)
   \<and> handle_command ''UP'' (s, st) = (s\<lparr>throttle := min 100 (throttle s + 10)\<rparr>, st)
   \<and> handle_command ''DOWN'' (s, st) = (s\<lparr>throttle := max 0 (throttle s - 10)\<rparr>, st)
   \<and> handle_command ''FRONT'' (s, st) = (s\<lparr>pitch := 15\<rparr>, st)
   \<and> handle_command ''BACK'' (s, st) = (s\<lparr>pitch := - 15\<rparr>, st)
   \<and> handle_command ''LEFT'' (s, st) = (s\<lparr>roll := - 15\<rparr>, st)
   \<and> handle_command ''RIGHT'' (s, st) = (s\<lparr>roll := 15\<rparr>, st)
   \<and> handle_command ''STOP'' (s, st) = (s\<lparr>pitch := 0, roll := 0\<rparr>, st)
   \<and> (cmd \<notin> set tokens \<longrightarrow> handle_command cmd (s, st) = (s, st))
   \<and> throttle (fst (handle_commands [''UP'', ''UP''] (initial_state, initial_stats))) = 20
   \<and> throttle (fst (handle_commands (replicate 9 ''UP'') (initial_state, initial_stats))) = 90
   \<and> throttle (fst (handle_commands (replicate 10 ''UP'') (initial_state, initial_stats))) = 100
   \<and> throttle (fst (handle_commands (replicate n ''UP'') (initial_state, initial_stats)))
       = min 100 (10 * real n)
   \<and> throttle (fst (handle_command ''DOWN'' (initial_state, initial_stats))) = 0"
proof -
  have ups: "throttle (fst (handle_commands (replicate m ''UP'') (initial_state, initial_stats)))
       = min 100 (10 * real m)" for m
    using ups_throttle [of initial_state 0 m initial_stats] by (simp add: initial_state_def)
  have two: "[''UP'', ''UP''] = replicate 2 ''UP''"
    by (simp add: eval_nat_numeral)
  have "throttle (fst (handle_commands [''UP'', ''UP''] (initial_state, initial_stats))) = 20"
    unfolding two ups by simp
  moreover have "throttle (fst (handle_commands (replicate 9 ''UP'') (initial_state, initial_stats))) = 90"
    unfolding ups by simp
  moreover have "throttle (fst (handle_commands (replicate 10 ''UP'') (initial_state, initial_stats))) = 100"
    unfolding ups by simp
  moreover have "cmd \<notin> set tokens \<longrightarrow> handle_command cmd (s, st) = (s, st)"
    by (simp add: tokens_def handle_command_def)
  ultimately show ?thesis
    using ups [of n] by (simp add: handle_command_def initial_state_def)
qed

text \<open>The strings \<open>up\<close> and \<open>UPP\<close> are no tokens and leave the initial state as it is.\<close>

theorem command_mapping_witness:
  "''up'' \<notin> set tokens
   \<and> handle_command ''up'' (initial_state, initial_stats) = (initial_state, initial_stats)
   \<and> ''UPP'' \<notin> set tokens
   \<and> handle_command ''UPP'' (initial_state, initial_stats) = (initial_state, initial_stats)"
  using command_mapping [of initial_state initial_stats "''up''" 0]
    command_mapping [of initial_state initial_stats "''UPP''" 0]
  by (simp add: tokens_def)

text \<open>
  Claim C3 as stated fails: nine consecutive UP commands from throttle 0 do not give a
  throttle of 100.
\<close>

theorem command_mapping_counterexample:
  "throttle (fst (handle_commands (replicate 9 ''UP'') (initial_state, initial_stats))) \<noteq> 100"
  by (simp add: eval_nat_numeral handle_command_def initial_state_def)

text \<open>
  Claim C8, amended. Every iteration of the receive loop ends with exactly one sleep of
  10 ms, whether the poll returned a datagram or not.
\<close>

theorem command_loop_sleep:
  "sleeps (snd (task_networking_iter recv preempts x)) = [10]"
  by (cases x; cases recv) (simp_all add: task_networking_iter_def Let_def)

text \<open>
  Claim C8 as stated fails: in the iteration that receives UP in the initial state the
  command is executed (the throttle becomes 10) and the loop sleeps before it polls
  again.
\<close>

theorem command_loop_sleep_counterexample:
  "throttle (fst (fst (task_networking_iter (Some ''UP'') 0 (initial_state, initial_stats)))) = 10
   \<and> sleeps (snd (task_networking_iter (Some ''UP'') 0 (initial_state, initial_stats))) \<noteq> []"
  by (simp add: task_networking_iter_def cmd_of_buffer_def handle_command_def
      initial_state_def Let_def)

subsection \<open>The monitor\<close>

text \<open>
  Claim C6, amended. One monitor iteration of \<^verbatim>\<open>udp_test_receiver.cpp\<close>, whatever its
  locals held before, reads eight statistics under the statistics lock and zeroes
  \<^verbatim>\<open>net_packets\<close> after reading it, then reads altitude and throttle under the state
  lock; the frame statistic \<^verbatim>\<open>vision_fps\<close> is read and not reset. One monitor iteration
  of \<^verbatim>\<open>data_collector.cpp\<close> reads eight statistics under the statistics lock and zeroes
  \<^verbatim>\<open>vision_frames\<close> and \<^verbatim>\<open>net_packets\<close> after reading them; it does not read the
  drone state. In both, every block runs under the lock of its structure, the state
  lock and the statistics lock are never held together, no lock is held at the end,
  the drone state is unchanged and no other field of the statistics is changed. As
  steps of the process, a monitor iteration leaves the drone state as it is, and the
  statistics as they are or with \<^verbatim>\<open>net_packets\<close> zeroed.
\<close>

theorem monitor_frame:
  "task_monitor_iter row s st =
     \<lparr>locals = \<lparr>f_time = flight_exec_avg_us st, f_miss = flight_deadline_misses st,
                 f_pre = flight_preempts st, n_pack = net_packets st,
                 n_pre = net_preempts st, v_fps = vision_fps st,
                 v_pre = vision_preempts st, alt = altitude s, thr = throttle s,
                 emerg_status = emergency_status st\<rparr>,
      the_state = s, the_stats = st\<lparr>net_packets := 0\<rparr>, held = {}, guarded = True,
      both_held = False\<rparr>
   \<and> task_monitor_iter_dc row_dc s sd =
     \<lparr>locals = \<lparr>f_time_dc = flight_exec_avg_us_dc sd, f_miss_dc = flight_deadline_misses_dc sd,
                 f_pre_dc = flight_preempts_dc sd, n_pack_dc = net_packets_dc sd,
                 n_pre_dc = net_preempts_dc sd, v_fps_dc = vision_frames_dc sd,
                 v_pre_dc = vision_preempts_dc sd, emg_dc = emergency_status_dc sd\<rparr>,
      the_state = s, the_stats = sd\<lparr>vision_frames_dc := 0, net_packets_dc := 0\<rparr>,
      held = {}, guarded = True, both_held = False\<rparr>
   \<and> shared_state (run [MonitorTest, MonitorStats, MonitorState] sys) = shared_state sys
   \<and> (global_stats (run [MonitorTest, MonitorStats, MonitorState] sys) = global_stats sys
      \<or> global_stats (run [MonitorTest, MonitorStats, MonitorState] sys)
          = (global_stats sys)\<lparr>net_packets := 0\<rparr>)"
proof (intro conjI)
  show "task_monitor_iter row s st =
     \<lparr>locals = \<lparr>f_time = flight_exec_avg_us st, f_miss = flight_deadline_misses st,
                 f_pre = flight_preempts st, n_pack = net_packets st,
                 n_pre = net_preempts st, v_fps = vision_fps st,
                 v_pre = vision_preempts st, alt = altitude s, thr = throttle s,
                 emerg_status = emergency_status st\<rparr>,
      the_state = s, the_stats = st\<lparr>net_packets := 0\<rparr>, held = {}, guarded = True,
      both_held = False\<rparr>"
    by (cases row)
       (simp add: task_monitor_iter_def task_monitor_body_def start_ctx_def
          monitor_read_stats_def monitor_read_state_def)
  show "task_monitor_iter_dc row_dc s sd =
     \<lparr>locals = \<lparr>f_time_dc = flight_exec_avg_us_dc sd, f_miss_dc = flight_deadline_misses_dc sd,
                 f_pre_dc = flight_preempts_dc sd, n_pack_dc = net_packets_dc sd,
                 n_pre_dc = net_preempts_dc sd, v_fps_dc = vision_frames_dc sd,
                 v_pre_dc = vision_preempts_dc sd, emg_dc = emergency_status_dc sd\<rparr>,
      the_state = s, the_stats = sd\<lparr>vision_frames_dc := 0, net_packets_dc := 0\<rparr>,
      held = {}, guarded = True, both_held = False\<rparr>"
    by (cases row_dc)
       (simp add: task_monitor_iter_dc_def task_monitor_body_dc_def start_ctx_def
          monitor_read_stats_dc_def)
  show "shared_state (run [MonitorTest, MonitorStats, MonitorState] sys) = shared_state sys"
    by (simp add: step_def monitor_loop_test_def monitor_stats_part_def monitor_state_part_def
        monitor_read_stats_def monitor_read_state_def)
  show "global_stats (run [MonitorTest, MonitorStats, MonitorState] sys) = global_stats sys
      \<or> global_stats (run [MonitorTest, MonitorStats, MonitorState] sys)
          = (global_stats sys)\<lparr>net_packets := 0\<rparr>"
    by (simp add: step_def monitor_loop_test_def monitor_stats_part_def monitor_state_part_def
        monitor_read_stats_def monitor_read_state_def)
qed

text \<open>
  Claim C6 as stated fails in each version. In \<^verbatim>\<open>udp_test_receiver.cpp\<close> the frame
  statistic is not reset: with \<^verbatim>\<open>vision_fps\<close> at 30 the monitor reads 30 and leaves 30.
  In \<^verbatim>\<open>data_collector.cpp\<close> the drone state is not read: at altitude 10 and throttle
  50 the monitor ends with the same locals as at altitude 0 and throttle 0.
\<close>

theorem monitor_frame_counterexample:
  "v_fps (locals (task_monitor_iter blank_row initial_state (initial_stats\<lparr>vision_fps := 30\<rparr>))) = 30
   \<and> vision_fps (the_stats (task_monitor_iter blank_row initial_state
        (initial_stats\<lparr>vision_fps := 30\<rparr>))) \<noteq> 0
   \<and> initial_state\<lparr>throttle := 50, altitude := 10\<rparr> \<noteq> initial_state
   \<and> locals (task_monitor_iter_dc blank_row_dc (initial_state\<lparr>throttle := 50, altitude := 10\<rparr>)
        initial_stats_dc)
       = locals (task_monitor_iter_dc blank_row_dc initial_state initial_stats_dc)"
  by (simp add: task_monitor_iter_def task_monitor_body_def task_monitor_iter_dc_def
      task_monitor_body_dc_def start_ctx_def monitor_read_stats_def monitor_read_state_def
      monitor_read_stats_dc_def blank_row_def initial_state_def)

subsection \<open>The iteration functions and the steps of the threads\<close>

text \<open>
  When the emergency task does not own the state lock, the steps of a thread taken one
  after the other give what the iteration function of its task gives.
\<close>

lemma flight_events_cycle:
  assumes "flight_at sys = FlightAtDeadline" and "\<not> state_locked sys"
  shows "(let sys' = run [FlightDeadline now, FlightCritical, FlightStats t_start t_end p] sys
          in (next_wake sys', global_stats sys', shared_state sys'))
         = task_flight_cycle now t_start t_end p (next_wake sys, global_stats sys, shared_state sys)"
  using assms
  by (simp add: step_def flight_deadline_part_def flight_state_part_def flight_stats_part_def
      task_flight_cycle_def Let_def split: prod.splits)

lemma net_events_iter:
  assumes "net_at sys = NetAtRecv" and "\<not> state_locked sys"
  shows "(let sys' = run [Net recv p, NetHandle] sys in (shared_state sys', global_stats sys'))
         = fst (task_networking_iter recv p (shared_state sys, global_stats sys))"
  using assms
  by (cases recv)
     (simp_all add: step_def net_receive_def net_handle_def task_networking_iter_def Let_def
        split: prod.splits)

lemma monitor_events_iter:
  assumes "monitor_at sys = MonitorAtStats" and "\<not> state_locked sys"
  shows "(let sys' = run [MonitorStats, MonitorState] sys;
              c = task_monitor_iter (monitor_locals sys) (shared_state sys) (global_stats sys)
          in monitor_locals sys' = locals c \<and> shared_state sys' = the_state c
             \<and> global_stats sys' = the_stats c)"
  using assms
  by (simp add: step_def monitor_stats_part_def monitor_state_part_def task_monitor_iter_def
      task_monitor_body_def start_ctx_def monitor_read_stats_def monitor_read_state_def Let_def)

end
